theory Spec2Isabelle
  imports Complex_Main "HOL-Library.Char_ord" "HOL-Library.List_Lexorder" "HOL-Library.Sublist"
begin

section \<open>Vimeo Transkript Generator: a shallow embedding of transcribe.py\<close>

text \<open>
  The pipeline reads rows of a worklist, extracts a Vimeo id from every link, downloads
  the audio of every unique id (phase 2), transcribes every downloaded audio file
  (phase 3) and joins the outcomes back onto the rows (phase 4). The progress of both
  phases is kept in one dictionary with the two keys \<open>downloaded\<close> and
  \<open>transcribed\<close>, written to \<open>output/progress.json\<close>.

  Strings are \<open>char list\<close>s, a \<open>char\<close> being a character with a code point below
  256. Python's \<open>None\<close> is \<open>None\<close>; a value tested with \<open>if v\<close> is false when it is
  \<open>None\<close> or the empty string. What the program only prints is left out.
\<close>

subsection \<open>Configuration\<close>

definition os_path_join :: "string \<Rightarrow> string \<Rightarrow> string" where
  \<comment> \<open>\<open>os.path.join\<close> with two arguments, on a POSIX system\<close>
  "os_path_join a b =
     (if b \<noteq> [] \<and> hd b = CHR ''/'' then b
      else if a = [] \<or> last a = CHR ''/'' then a @ b
      else a @ ''/'' @ b)"

definition OUTPUT_DIR :: string where
  "OUTPUT_DIR = ''output''"

definition AUDIO_DIR :: string where
  "AUDIO_DIR = os_path_join OUTPUT_DIR ''audio''"

definition PROGRESS_FILE :: string where
  "PROGRESS_FILE = os_path_join OUTPUT_DIR ''progress.json''"

subsection \<open>Python string operations used by the helpers\<close>

definition py_truthy :: "string option \<Rightarrow> bool" where
  \<comment> \<open>\<open>if v\<close> for a value that is \<open>None\<close> or a string\<close>
  "py_truthy v = (case v of None \<Rightarrow> False | Some s \<Rightarrow> s \<noteq> [])"

definition is_digit :: "char \<Rightarrow> bool" where
  "is_digit c = (CHR ''0'' \<le> c \<and> c \<le> CHR ''9'')"

definition is_space :: "char \<Rightarrow> bool" where
  \<comment> \<open>the characters below 256 that \<open>str.strip()\<close> removes\<close>
  "is_space c = (c \<in> {CHR '' '', CHR 0x09, CHR 0x0A, CHR 0x0B, CHR 0x0C, CHR 0x0D,
                       CHR 0x1C, CHR 0x1D, CHR 0x1E, CHR 0x1F, CHR 0x85, CHR 0xA0})"

definition lower_char :: "char \<Rightarrow> char" where
  \<comment> \<open>\<open>str.lower()\<close> on one character below 256\<close>
  "lower_char c =
     (if (CHR ''A'' \<le> c \<and> c \<le> CHR ''Z'') \<or> (CHR 0xC0 \<le> c \<and> c \<le> CHR 0xDE \<and> c \<noteq> CHR 0xD7)
      then char_of (of_char c + (32::nat)) else c)"

definition py_lower :: "string \<Rightarrow> string" where
  "py_lower s = map lower_char s"

definition py_strip :: "string \<Rightarrow> string" where
  "py_strip s = rev (dropWhile is_space (rev (dropWhile is_space s)))"

definition startswith :: "string \<Rightarrow> string \<Rightarrow> bool" where
  "startswith s p = (take (length p) s = p)"

fun py_in :: "string \<Rightarrow> string \<Rightarrow> bool" where
  \<comment> \<open>\<open>sub in s\<close>: \<open>sub\<close> occurs somewhere in \<open>s\<close>\<close>
  "py_in sub [] = (sub = [])"
| "py_in sub (c # cs) = (startswith (c # cs) sub \<or> py_in sub cs)"

fun re_search_vimeo :: "string \<Rightarrow> string option" where
  \<comment> \<open>\<open>re.search(r"vimeo\.com/(\d+)", s)\<close>, group 1 of the leftmost match: the
      longest run of digits after the first \<open>vimeo.com/\<close> that a digit follows\<close>
  "re_search_vimeo [] = None"
| "re_search_vimeo (c # cs) =
     (if startswith (c # cs) ''vimeo.com/''
         \<and> takeWhile is_digit (drop 10 (c # cs)) \<noteq> []
      then Some (takeWhile is_digit (drop 10 (c # cs)))
      else re_search_vimeo cs)"

subsection \<open>Helper functions\<close>

definition extract_vimeo_id :: "string \<Rightarrow> string option" where
  "extract_vimeo_id url = (if url = [] then None else re_search_vimeo url)"

definition clean_vimeo_url :: "string \<Rightarrow> string" where
  \<comment> \<open>\<open>str(url).split("?")[0].strip()\<close>\<close>
  "clean_vimeo_url url =
     (if url = [] then [] else py_strip (takeWhile (\<lambda>c. c \<noteq> CHR ''?'') url))"

subsection \<open>Phase 1: reading the worklist\<close>

text \<open>
  A cell of the sheet is \<open>None\<close> when it is empty and \<open>Some s\<close> when it holds the text
  \<open>s\<close> (the sheet's link and name columns are text columns). The sheet is the list of
  its data rows; the first one is row 2 of the workbook.
\<close>

type_synonym cell = "string option"

record sheet_row =
  c_order :: cell
  c_modul :: cell
  c_bereich :: cell
  c_kategorie :: cell
  c_uebung :: cell
  c_video_kurz :: cell
  c_video_lang :: cell

record entry =
  row :: nat
  order :: cell
  modul :: string
  bereich :: string
  kategorie :: string
  uebung :: string
  link_typ :: string
  url :: string
  url_clean :: string
  vimeo_id :: "string option"

definition str_or_empty :: "cell \<Rightarrow> string" where
  \<comment> \<open>\<open>str(v) if v else ""\<close>\<close>
  "str_or_empty v = (case v of None \<Rightarrow> [] | Some s \<Rightarrow> if s \<noteq> [] then s else [])"

definition is_vimeo_cell :: "cell \<Rightarrow> bool" where
  \<comment> \<open>\<open>v and "vimeo" in str(v).lower()\<close>\<close>
  "is_vimeo_cell v =
     (case v of None \<Rightarrow> False | Some s \<Rightarrow> s \<noteq> [] \<and> py_in ''vimeo'' (py_lower s))"

definition link_entry :: "nat \<Rightarrow> sheet_row \<Rightarrow> string \<Rightarrow> string \<Rightarrow> entry" where
  "link_entry r sr typ video =
     \<lparr> row = r, order = c_order sr,
       modul = str_or_empty (c_modul sr), bereich = str_or_empty (c_bereich sr),
       kategorie = str_or_empty (c_kategorie sr), uebung = str_or_empty (c_uebung sr),
       link_typ = typ, url = py_strip video,
       url_clean = clean_vimeo_url video,
       vimeo_id = extract_vimeo_id (clean_vimeo_url video) \<rparr>"

definition slot_entries :: "nat \<Rightarrow> sheet_row \<Rightarrow> string \<Rightarrow> cell \<Rightarrow> entry list" where
  \<comment> \<open>one \<open>if video and "vimeo" in ...: entries.append(...)\<close> block\<close>
  "slot_entries r sr typ v =
     (case v of None \<Rightarrow> []
      | Some video \<Rightarrow> if is_vimeo_cell v then [link_entry r sr typ video] else [])"

definition row_entries :: "nat \<Rightarrow> sheet_row \<Rightarrow> entry list" where
  \<comment> \<open>the body of the loop over the rows: the entries one row appends\<close>
  "row_entries r sr =
     slot_entries r sr ''kurz'' (c_video_kurz sr) @ slot_entries r sr ''lang'' (c_video_lang sr)"

fun read_rows :: "nat \<Rightarrow> sheet_row list \<Rightarrow> entry list" where
  "read_rows r [] = []"
| "read_rows r (sr # srs) = row_entries r sr @ read_rows (Suc r) srs"

definition read_excel :: "sheet_row list \<Rightarrow> entry list" where
  "read_excel sheet = read_rows 2 sheet"

subsection \<open>The checkpoint: progress dictionary and progress file\<close>

text \<open>
  An entry of \<open>progress["downloaded"]\<close> is one of the two dictionaries the download
  phase writes, \<open>{"status": "ok", "path": p}\<close> and \<open>{"status": "error", "error": m}\<close>;
  an entry of \<open>progress["transcribed"]\<close> is \<open>{"status": "ok", "text": t,
  "audio_duration_s": a, "processing_time_s": d}\<close> or \<open>{"status": "error", "error": m}\<close>.
  The two numbers are the rounded floats the program stores; they are taken as given.
  A key that is not in a dictionary is \<open>None\<close> in the map. The progress dictionary
  always has its two keys, as \<open>load_progress\<close> and \<open>save_progress\<close> keep them; so the
  local \<open>downloaded\<close> of the download phase is \<open>progress["downloaded"]\<close> itself, and
  likewise \<open>transcribed\<close>: an assignment into one is an assignment into the progress.
  Writing the progress file is taken to succeed.
\<close>

datatype dl_state = DlOk string | DlError string

datatype tr_state = TrOk string rat rat | TrError string

record progress =
  downloaded :: "string \<rightharpoonup> dl_state"
  transcribed :: "string \<rightharpoonup> tr_state"

text \<open>
  The file system maps a path to what is stored there: a JSON document holding a progress
  dictionary, or anything else (an audio file, a directory, text that is not JSON).
\<close>

datatype file_content = JsonDoc progress | Blob

type_synonym filesystem = "string \<rightharpoonup> file_content"

datatype error = JSONDecodeError | KeyError string

definition os_path_exists :: "filesystem \<Rightarrow> string \<Rightarrow> bool" where
  "os_path_exists files p = (files p \<noteq> None)"

definition empty_progress :: progress where
  "empty_progress = \<lparr> downloaded = Map.empty, transcribed = Map.empty \<rparr>"

definition load_progress :: "filesystem \<Rightarrow> string \<Rightarrow> error + progress" where
  "load_progress files progress_file =
     (if os_path_exists files progress_file
      then (case files progress_file of
              Some (JsonDoc p) \<Rightarrow> Inr p
            | _ \<Rightarrow> Inl JSONDecodeError)
      else Inr empty_progress)"

definition save_progress :: "string \<Rightarrow> progress \<Rightarrow> filesystem \<Rightarrow> filesystem" where
  "save_progress progress_file p files = files(progress_file \<mapsto> JsonDoc p)"

subsection \<open>The external collaborators and the state of a run\<close>

text \<open>
  \<open>yt_dlp\<close> and \<open>faster_whisper\<close> are outside the program. A call either raises an
  \<open>Exception\<close>, of which the program only uses \<open>str(ex)\<close>, or returns; either way it may
  change the file system and the rest of the world (network, model, clock), which is the
  type parameter \<open>'x\<close>. The download is called with the output template and the url; the
  transcription with the audio path, and it returns the texts of the segments, the
  rounded audio duration and the rounded processing time.

  The state of a run holds the progress dictionary in memory, the file system, the world,
  the counters of the running phase, and the sequence of collaborator calls and progress
  writes made so far.
\<close>

datatype event =
    YdlCall string string
  | WhisperCall string string
  | SaveCall string progress

record 'x collab =
  ydl_download ::
    "string \<Rightarrow> string \<Rightarrow> 'x \<times> filesystem \<Rightarrow> string option \<times> 'x \<times> filesystem"
  whisper_transcribe ::
    "string \<Rightarrow> 'x \<times> filesystem \<Rightarrow> (string + string list \<times> rat \<times> rat) \<times> 'x \<times> filesystem"

record 'x run =
  progress :: progress
  files :: filesystem
  ext :: 'x
  trace :: "event list"
  skipped :: nat
  failed :: nat
  new_count :: nat

definition start_phase :: "'x run \<Rightarrow> 'x run" where
  \<comment> \<open>\<open>skipped = 0; failed = 0; new_... = 0\<close>\<close>
  "start_phase st = st\<lparr> skipped := 0, failed := 0, new_count := 0 \<rparr>"

definition save :: "'x run \<Rightarrow> 'x run" where
  \<comment> \<open>\<open>save_progress(PROGRESS_FILE, progress)\<close>\<close>
  "save st =
     st\<lparr> files := save_progress PROGRESS_FILE (progress st) (files st),
         trace := trace st @ [SaveCall PROGRESS_FILE (progress st)] \<rparr>"

definition set_downloaded :: "string \<Rightarrow> dl_state \<Rightarrow> 'x run \<Rightarrow> 'x run" where
  \<comment> \<open>\<open>downloaded[vimeo_id] = v\<close>, where \<open>downloaded\<close> is \<open>progress["downloaded"]\<close>\<close>
  "set_downloaded vid v st =
     st\<lparr> progress := (progress st)\<lparr> downloaded := (downloaded (progress st))(vid \<mapsto> v) \<rparr> \<rparr>"

definition set_transcribed :: "string \<Rightarrow> tr_state \<Rightarrow> 'x run \<Rightarrow> 'x run" where
  \<comment> \<open>\<open>transcribed[vimeo_id] = v\<close>, where \<open>transcribed\<close> is \<open>progress["transcribed"]\<close>\<close>
  "set_transcribed vid v st =
     st\<lparr> progress := (progress st)\<lparr> transcribed := (transcribed (progress st))(vid \<mapsto> v) \<rparr> \<rparr>"

fun dl_status_ok :: "dl_state option \<Rightarrow> bool" where
  \<comment> \<open>\<open>vid in downloaded and downloaded[vid].get("status") == "ok"\<close>\<close>
  "dl_status_ok (Some (DlOk p)) = True"
| "dl_status_ok _ = False"

fun tr_status_ok :: "tr_state option \<Rightarrow> bool" where
  \<comment> \<open>\<open>vid in transcribed and transcribed[vid].get("status") == "ok"\<close>\<close>
  "tr_status_ok (Some (TrOk t a d)) = True"
| "tr_status_ok _ = False"

subsection \<open>Phase 2: audio download\<close>

fun unique_ids :: "entry list \<Rightarrow> (string \<times> string) list \<Rightarrow> (string \<times> string) list" where
  \<comment> \<open>the dictionary \<open>unique_ids\<close> in insertion order, built by the first loop\<close>
  "unique_ids [] acc = acc"
| "unique_ids (e # es) acc =
     unique_ids es
       (case vimeo_id e of
          None \<Rightarrow> acc
        | Some vid \<Rightarrow>
            if vid \<noteq> [] \<and> vid \<notin> set (map fst acc)
            then acc @ [(vid, url_clean e)] else acc)"

fun dl_skip :: "filesystem \<Rightarrow> dl_state option \<Rightarrow> bool" where
  \<comment> \<open>the test that ends in \<open>continue\<close>: status ok and the recorded path exists\<close>
  "dl_skip fsys (Some (DlOk p)) = os_path_exists fsys p"
| "dl_skip fsys _ = False"

definition download_item :: "'x collab \<Rightarrow> string \<times> string \<Rightarrow> 'x run \<Rightarrow> 'x run" where
  \<comment> \<open>the body of the loop over \<open>unique_ids.items()\<close>\<close>
  "download_item col item st =
     (case item of (vid, link) \<Rightarrow>
        let audio_path = os_path_join AUDIO_DIR (vid @ ''.mp3'') in
        if dl_skip (files st) (downloaded (progress st) vid)
        then st\<lparr> skipped := skipped st + 1 \<rparr>
        else
          (case ydl_download col (os_path_join AUDIO_DIR (vid @ ''.%(ext)s'')) link
                  (ext st, files st) of
             (raised, x', files') \<Rightarrow>
               let st1 = st\<lparr> ext := x', files := files',
                             trace := trace st @ [YdlCall vid link] \<rparr> in
               save
                 (case raised of
                    None \<Rightarrow>
                      if os_path_exists files' audio_path
                      then (set_downloaded vid (DlOk audio_path) st1)
                             \<lparr> new_count := new_count st1 + 1 \<rparr>
                      else (set_downloaded vid
                              (DlError ''Datei nicht gefunden nach Download'') st1)
                             \<lparr> failed := failed st1 + 1 \<rparr>
                  | Some ex \<Rightarrow>
                      (set_downloaded vid (DlError (take 200 ex)) st1)
                        \<lparr> failed := failed st1 + 1 \<rparr>)))"

fun download_loop :: "'x collab \<Rightarrow> (string \<times> string) list \<Rightarrow> 'x run \<Rightarrow> 'x run" where
  "download_loop col [] st = st"
| "download_loop col (item # items) st = download_loop col items (download_item col item st)"

definition download_audio :: "'x collab \<Rightarrow> entry list \<Rightarrow> 'x run \<Rightarrow> 'x run" where
  \<comment> \<open>the returned dictionary is \<open>downloaded (progress st')\<close> of the final state\<close>
  "download_audio col entries st =
     download_loop col (unique_ids entries []) (start_phase st)"

subsection \<open>Phase 3: transcription\<close>

text \<open>
  The phase starts once the model is loaded. The set \<open>unique_ids_to_transcribe\<close> is
  built from the entries and the \<open>downloaded\<close> argument, and the loop runs over
  \<open>sorted(unique_ids_to_transcribe)\<close>: strings in ascending lexicographic order.
\<close>

fun unique_ids_to_transcribe :: "entry list \<Rightarrow> (string \<rightharpoonup> dl_state) \<Rightarrow> string set" where
  "unique_ids_to_transcribe [] dl = {}"
| "unique_ids_to_transcribe (e # es) dl =
     (case vimeo_id e of
        None \<Rightarrow> unique_ids_to_transcribe es dl
      | Some vid \<Rightarrow>
          if vid \<noteq> [] \<and> dl_status_ok (dl vid)
          then insert vid (unique_ids_to_transcribe es dl)
          else unique_ids_to_transcribe es dl)"

fun join_with :: "string \<Rightarrow> string list \<Rightarrow> string" where
  \<comment> \<open>\<open>sep.join(parts)\<close>\<close>
  "join_with sep [] = []"
| "join_with sep [x] = x"
| "join_with sep (x # y # ys) = x @ sep @ join_with sep (y # ys)"

definition transcribe_item ::
  "'x collab \<Rightarrow> (string \<rightharpoonup> dl_state) \<Rightarrow> string \<Rightarrow> 'x run \<Rightarrow> error + 'x run" where
  \<comment> \<open>the body of the loop over the sorted ids; \<open>Inl\<close> is an exception that leaves it\<close>
  "transcribe_item col dl vid st =
     (if tr_status_ok (transcribed (progress st) vid)
      then Inr (st\<lparr> skipped := skipped st + 1 \<rparr>)
      else
        (case dl vid of
           None \<Rightarrow> Inl (KeyError vid)
         | Some (DlError m) \<Rightarrow> Inl (KeyError ''path'')
         | Some (DlOk audio_path) \<Rightarrow>
             if \<not> os_path_exists (files st) audio_path
             then Inr ((set_transcribed vid (TrError ''Audio-Datei nicht gefunden'') st)
                         \<lparr> failed := failed st + 1 \<rparr>)
             else
               (case whisper_transcribe col audio_path (ext st, files st) of
                  (res, x', files') \<Rightarrow>
                    let st1 = st\<lparr> ext := x', files := files',
                                  trace := trace st @ [WhisperCall vid audio_path] \<rparr> in
                    Inr (save
                      (case res of
                         Inr (segments, audio_duration, processing_time) \<Rightarrow>
                           (set_transcribed vid
                              (TrOk (join_with '' '' (map py_strip segments))
                                    audio_duration processing_time) st1)
                             \<lparr> new_count := new_count st1 + 1 \<rparr>
                       | Inl ex \<Rightarrow>
                           (set_transcribed vid (TrError (take 200 ex)) st1)
                             \<lparr> failed := failed st1 + 1 \<rparr>)))))"

fun transcribe_loop ::
  "'x collab \<Rightarrow> (string \<rightharpoonup> dl_state) \<Rightarrow> string list \<Rightarrow> 'x run \<Rightarrow> error + 'x run" where
  "transcribe_loop col dl [] st = Inr st"
| "transcribe_loop col dl (vid # vids) st =
     (case transcribe_item col dl vid st of
        Inl e \<Rightarrow> Inl e
      | Inr st' \<Rightarrow> transcribe_loop col dl vids st')"

definition transcribe_order :: "entry list \<Rightarrow> (string \<rightharpoonup> dl_state) \<Rightarrow> string list" where
  \<comment> \<open>\<open>sorted(unique_ids_to_transcribe)\<close>\<close>
  "transcribe_order entries dl = sorted_list_of_set (unique_ids_to_transcribe entries dl)"

definition transcribe_audio ::
  "'x collab \<Rightarrow> entry list \<Rightarrow> (string \<rightharpoonup> dl_state) \<Rightarrow> 'x run \<Rightarrow> error + 'x run" where
  \<comment> \<open>the returned dictionary is \<open>transcribed (progress st')\<close> of the final state\<close>
  "transcribe_audio col entries dl st =
     transcribe_loop col dl (transcribe_order entries dl) (start_phase st)"

subsection \<open>Phase 4: export\<close>

text \<open>
  One report row per entry, in the order of the entries. The workbook and the CSV file
  are renderings of these rows.
\<close>

record report_row =
  r_order :: cell
  r_modul :: string
  r_bereich :: string
  r_kategorie :: string
  r_uebung :: string
  r_link_typ :: string
  r_url :: string
  r_vimeo_id :: string
  r_audio_dauer_s :: "rat option"
  r_transkript :: string
  r_status :: string

definition export_status ::
  "string option \<Rightarrow> tr_state option \<Rightarrow> dl_state option \<Rightarrow> string \<times> string \<times> rat option" where
  \<comment> \<open>the chain \<open>if not vid ... elif ... else\<close>: status, text and audio duration, for
      the id of the entry and its entries in \<open>transcribed\<close> and \<open>downloaded\<close>\<close>
  "export_status vid t d =
     (if \<not> py_truthy vid then (''keine_vimeo_id'', [], None)
      else case t of
        Some (TrOk text audio_dur proc) \<Rightarrow> (''ok'', text, Some audio_dur)
      | _ \<Rightarrow>
       (case d of
          Some (DlError err) \<Rightarrow>
            (''download_fehlgeschlagen'', ''[Fehler: '' @ err @ '']'', None)
        | _ \<Rightarrow>
         (case t of
            Some (TrError err) \<Rightarrow>
              (''transkription_fehlgeschlagen'', ''[Fehler: '' @ err @ '']'', None)
          | _ \<Rightarrow> (''nicht_verarbeitet'', [], None))))"

definition dict_get :: "(string \<rightharpoonup> 'v) \<Rightarrow> string option \<Rightarrow> 'v option" where
  \<comment> \<open>the entry of a dictionary for \<open>vid\<close>; \<open>None\<close> is a key of no dictionary\<close>
  "dict_get m vid = (case vid of None \<Rightarrow> None | Some v \<Rightarrow> m v)"

definition export_row ::
  "(string \<rightharpoonup> tr_state) \<Rightarrow> (string \<rightharpoonup> dl_state) \<Rightarrow> entry \<Rightarrow> report_row" where
  "export_row tr dl e =
     (let vid = vimeo_id e;
          res = export_status vid (dict_get tr vid) (dict_get dl vid)
      in \<lparr> r_order = order e, r_modul = modul e, r_bereich = bereich e,
           r_kategorie = kategorie e, r_uebung = uebung e, r_link_typ = link_typ e,
           r_url = url e, r_vimeo_id = (case vid of None \<Rightarrow> [] | Some v \<Rightarrow> v),
           r_audio_dauer_s = snd (snd res), r_transkript = fst (snd res),
           r_status = fst res \<rparr>)"

definition export_results ::
  "entry list \<Rightarrow> (string \<rightharpoonup> tr_state) \<Rightarrow> (string \<rightharpoonup> dl_state) \<Rightarrow> report_row list" where
  "export_results entries tr dl = map (export_row tr dl) entries"

subsection \<open>Observations on the sequence of events\<close>

fun ydl_calls :: "event list \<Rightarrow> (string \<times> string) list" where
  \<comment> \<open>the download calls, in order: Vimeo id and url\<close>
  "ydl_calls [] = []"
| "ydl_calls (YdlCall vid link # evs) = (vid, link) # ydl_calls evs"
| "ydl_calls (ev # evs) = ydl_calls evs"

fun whisper_calls :: "event list \<Rightarrow> (string \<times> string) list" where
  \<comment> \<open>the transcription calls, in order: Vimeo id and audio path\<close>
  "whisper_calls [] = []"
| "whisper_calls (WhisperCall vid audio_path # evs) = (vid, audio_path) # whisper_calls evs"
| "whisper_calls (ev # evs) = whisper_calls evs"

fun save_calls :: "event list \<Rightarrow> progress list" where
  \<comment> \<open>the snapshots written to the progress file, in order\<close>
  "save_calls [] = []"
| "save_calls (SaveCall f p # evs) = p # save_calls evs"
| "save_calls (ev # evs) = save_calls evs"

section \<open>The report statuses of the specification\<close>

text \<open>
  The decision list of the Result Aggregator, written from the specification: the first
  rule that matches gives the status. An item key is absent when the entry has no id;
  the empty string is no id either.
\<close>

datatype row_status =
    No_identifier
  | Row_ok string rat
  | Fetch_failed string
  | Transform_failed string
  | Not_processed

fun spec_row_status ::
  "string option \<Rightarrow> dl_state option \<Rightarrow> tr_state option \<Rightarrow> row_status" where
  "spec_row_status None f t = No_identifier"
| "spec_row_status (Some k) f (Some (TrOk text dur proc)) = Row_ok text dur"
| "spec_row_status (Some k) (Some (DlError m)) t = Fetch_failed m"
| "spec_row_status (Some k) f (Some (TrError m)) = Transform_failed m"
| "spec_row_status (Some k) f t = Not_processed"

definition item_key :: "string option \<Rightarrow> string option" where
  "item_key vid = (if py_truthy vid then vid else None)"

fun render_status :: "row_status \<Rightarrow> string \<times> string \<times> rat option" where
  \<comment> \<open>the status tag, text and duration the program writes for a status\<close>
  "render_status No_identifier = (''keine_vimeo_id'', [], None)"
| "render_status (Row_ok text dur) = (''ok'', text, Some dur)"
| "render_status (Fetch_failed m) =
     (''download_fehlgeschlagen'', ''[Fehler: '' @ m @ '']'', None)"
| "render_status (Transform_failed m) =
     (''transkription_fehlgeschlagen'', ''[Fehler: '' @ m @ '']'', None)"
| "render_status Not_processed = (''nicht_verarbeitet'', [], None)"

text \<open>
  The order of first appearance, written from the specification: the ids of the entries
  that have one, and a list reduced to the first occurrence of each of its elements.
\<close>

fun entry_keys :: "entry list \<Rightarrow> string list" where
  "entry_keys [] = []"
| "entry_keys (e # es) =
     (case vimeo_id e of
        None \<Rightarrow> entry_keys es
      | Some v \<Rightarrow> if v \<noteq> [] then v # entry_keys es else entry_keys es)"

fun first_seen :: "'a list \<Rightarrow> 'a list" where
  "first_seen [] = []"
| "first_seen (x # xs) = x # first_seen (removeAll x xs)"

section \<open>Concrete collaborators and inputs\<close>

text \<open>
  A download that raises \<open>timeout\<close> for one url and otherwise creates the mp3 file the
  output template names, and a transcription that raises for one audio path and
  otherwise returns one segment.
\<close>

definition demo_collab :: "string \<Rightarrow> string \<Rightarrow> unit collab" where
  "demo_collab bad_link bad_path =
     \<lparr> ydl_download = (\<lambda>outtmpl link (x, fsys).
          if link = bad_link then (Some ''timeout'', x, fsys)
          else (None, x, fsys(take (length outtmpl - 7) outtmpl @ ''mp3'' \<mapsto> Blob))),
       whisper_transcribe = (\<lambda>audio_path (x, fsys).
          if audio_path = bad_path then (Inl ''decode error'', x, fsys)
          else (Inr (['' hallo ''], 3, 1), x, fsys)) \<rparr>"

definition st0 :: "unit run" where
  \<comment> \<open>a first run: nothing in memory, nothing on disk\<close>
  "st0 = \<lparr> progress = empty_progress, files = Map.empty, ext = (), trace = [],
           skipped = 0, failed = 0, new_count = 0 \<rparr>"

definition link_row :: "string \<Rightarrow> cell \<Rightarrow> cell \<Rightarrow> sheet_row" where
  "link_row name kurz lang =
     \<lparr> c_order = None, c_modul = Some ''M5'', c_bereich = None, c_kategorie = None,
       c_uebung = Some name, c_video_kurz = kurz, c_video_lang = lang \<rparr>"

definition demo_sheet :: "sheet_row list" where
  "demo_sheet =
     [link_row ''A'' (Some ''https://vimeo.com/200?share=copy'') None,
      link_row ''B'' (Some ''https://vimeo.com/100'') (Some '' https://vimeo.com/100 ''),
      link_row ''C'' (Some ''https://Vimeo.com/300'') (Some ''https://vimeo.com/manage/videos'')]"

text \<open>A collaborator whose download returns without raising and without writing a file.\<close>

definition idle_collab :: "unit collab" where
  "idle_collab =
     \<lparr> ydl_download = (\<lambda>outtmpl link (x, fsys). (None, x, fsys)),
       whisper_transcribe = (\<lambda>audio_path (x, fsys). (Inr ([], 0, 0), x, fsys)) \<rparr>"

definition demo_entries :: "entry list" where
  "demo_entries = read_excel demo_sheet"

definition fetched :: "unit collab \<Rightarrow> unit run" where
  "fetched col = download_audio col demo_entries st0"

definition failed_200 :: "string \<rightharpoonup> dl_state" where
  "failed_200 = [''100'' \<mapsto> DlOk ''output/audio/100.mp3'', ''200'' \<mapsto> DlError ''timeout'']"

text \<open>
  A later run: both audio files were downloaded, id 100 is transcribed, the progress file
  holds this progress, and \<open>audio\<close> is what is left of the audio files. The second
  state is the one after a download phase in which both downloads succeeded.
\<close>

definition resumed :: "filesystem \<Rightarrow> unit run" where
  "resumed audio =
     (let p = \<lparr> downloaded = [''100'' \<mapsto> DlOk ''output/audio/100.mp3'',
                               ''200'' \<mapsto> DlOk ''output/audio/200.mp3''],
                transcribed = [''100'' \<mapsto> TrOk ''hallo'' 3 1] \<rparr>
      in st0\<lparr> progress := p, files := audio(PROGRESS_FILE \<mapsto> JsonDoc p) \<rparr>)"

definition lost_audio :: "unit run" where
  \<comment> \<open>the audio file of id 200 has been deleted\<close>
  "lost_audio = resumed [''output/audio/100.mp3'' \<mapsto> Blob]"

definition both_fetched :: "unit run" where
  "both_fetched =
     (let p = \<lparr> downloaded = [''200'' \<mapsto> DlOk ''output/audio/200.mp3'',
                               ''100'' \<mapsto> DlOk ''output/audio/100.mp3''],
                transcribed = Map.empty \<rparr>
      in st0\<lparr> progress := p,
              files := [''output/audio/200.mp3'' \<mapsto> Blob, ''output/audio/100.mp3'' \<mapsto> Blob,
                        PROGRESS_FILE \<mapsto> JsonDoc p] \<rparr>)"

text \<open>The transcription entry of an id in the progress file on disk.\<close>

definition disk_transcribed :: "filesystem \<Rightarrow> string \<Rightarrow> tr_state option" where
  "disk_transcribed fsys vid =
     (case load_progress fsys PROGRESS_FILE of Inr p \<Rightarrow> transcribed p vid | Inl e \<Rightarrow> None)"

section \<open>Lemmas on the phases\<close>

lemma download_loop_invariant:
  assumes "P st"
    and "\<And>item s. item \<in> set items \<Longrightarrow> P s \<Longrightarrow> P (download_item col item s)"
  shows "P (download_loop col items st)"
  using assms by (induction items arbitrary: st) auto

lemma transcribe_item_total:
  "dl_status_ok (dl vid) \<Longrightarrow> \<exists>st'. transcribe_item col dl vid st = Inr st'"
  by (cases "dl vid" rule: dl_status_ok.cases)
     (auto simp: transcribe_item_def Let_def split: prod.splits)

lemma transcribe_loop_invariant:
  assumes "\<forall>v \<in> set vids. dl_status_ok (dl v)"
    and "P st"
    and "\<And>v s s'. v \<in> set vids \<Longrightarrow> P s \<Longrightarrow> transcribe_item col dl v s = Inr s' \<Longrightarrow> P s'"
  shows "\<exists>st'. transcribe_loop col dl vids st = Inr st' \<and> P st'"
  using assms
proof (induction vids arbitrary: st)
  case Nil
  then show ?case by simp
next
  case (Cons v vids)
  from Cons.prems(1) have "dl_status_ok (dl v)" by simp
  then obtain s1 where s1: "transcribe_item col dl v st = Inr s1"
    using transcribe_item_total by blast
  have "P s1" using Cons.prems(2,3) s1 by auto
  have "\<exists>st'. transcribe_loop col dl vids s1 = Inr st' \<and> P st'"
  proof (rule Cons.IH)
    show "\<forall>v \<in> set vids. dl_status_ok (dl v)" using Cons.prems(1) by simp
    show "P s1" by fact
    show "\<And>v s s'. v \<in> set vids \<Longrightarrow> P s \<Longrightarrow> transcribe_item col dl v s = Inr s' \<Longrightarrow> P s'"
      using Cons.prems(3) by (meson list.set_intros(2))
  qed
  then show ?case using s1 by simp
qed

lemma finite_unique_ids_to_transcribe: "finite (unique_ids_to_transcribe entries dl)"
  by (induction entries) (auto split: option.splits)

lemma unique_ids_to_transcribe_iff:
  "vid \<in> unique_ids_to_transcribe entries dl \<longleftrightarrow>
     (Some vid \<in> set (map vimeo_id entries) \<and> vid \<noteq> [] \<and> dl_status_ok (dl vid))"
  by (induction entries) (auto split: option.splits)

lemma set_transcribe_order:
  "set (transcribe_order entries dl) = unique_ids_to_transcribe entries dl"
  by (simp add: transcribe_order_def finite_unique_ids_to_transcribe)

lemma transcribe_order_ok:
  "\<forall>v \<in> set (transcribe_order entries dl). dl_status_ok (dl v)"
  by (simp add: set_transcribe_order unique_ids_to_transcribe_iff)

lemma download_item_transcribed:
  "transcribed (progress (download_item col item st)) = transcribed (progress st)"
  by (cases item)
     (simp add: download_item_def Let_def save_def set_downloaded_def
           split: prod.splits option.splits)

lemma transcribe_item_downloaded:
  "transcribe_item col dl vid st = Inr st' \<Longrightarrow>
     downloaded (progress st') = downloaded (progress st)"
  by (auto simp: transcribe_item_def Let_def save_def set_transcribed_def
           split: if_splits prod.splits option.splits dl_state.splits sum.splits)

lemma export_status_spec:
  "export_status vid t d = render_status (spec_row_status (item_key vid) d t)"
  by (cases vid; cases t; cases d)
     (auto simp: export_status_def item_key_def py_truthy_def
           split: tr_state.splits dl_state.splits option.splits)

lemma download_item_skip:
  "dl_skip (files st) (downloaded (progress st) vid) \<Longrightarrow>
     download_item col (vid, link) st = st\<lparr> skipped := skipped st + 1 \<rparr>"
  by (simp add: download_item_def)

lemma download_item_attempt:
  assumes "\<not> dl_skip (files st) (downloaded (progress st) vid)"
    and "ydl_download col (os_path_join AUDIO_DIR (vid @ ''.%(ext)s'')) link (ext st, files st)
           = (raised, x', files')"
  shows "download_item col (vid, link) st =
     save (let st1 = st\<lparr> ext := x', files := files', trace := trace st @ [YdlCall vid link] \<rparr> in
           case raised of
             None \<Rightarrow>
               if os_path_exists files' (os_path_join AUDIO_DIR (vid @ ''.mp3''))
               then (set_downloaded vid (DlOk (os_path_join AUDIO_DIR (vid @ ''.mp3''))) st1)
                      \<lparr> new_count := new_count st1 + 1 \<rparr>
               else (set_downloaded vid (DlError ''Datei nicht gefunden nach Download'') st1)
                      \<lparr> failed := failed st1 + 1 \<rparr>
           | Some ex \<Rightarrow>
               (set_downloaded vid (DlError (take 200 ex)) st1) \<lparr> failed := failed st1 + 1 \<rparr>)"
  using assms by (simp add: download_item_def Let_def)

lemma whisper_calls_append: "whisper_calls (xs @ ys) = whisper_calls xs @ whisper_calls ys"
  by (induction xs rule: whisper_calls.induct) auto

lemma ydl_calls_append: "ydl_calls (xs @ ys) = ydl_calls xs @ ydl_calls ys"
  by (induction xs rule: ydl_calls.induct) auto

lemma save_calls_append: "save_calls (xs @ ys) = save_calls xs @ save_calls ys"
  by (induction xs rule: save_calls.induct) auto

lemma transcribe_item_other:
  assumes "transcribe_item col dl v st = Inr st'" and "v \<noteq> vid"
  shows "transcribed (progress st') vid = transcribed (progress st) vid"
    and "[c \<leftarrow> whisper_calls (trace st'). fst c = vid] = [c \<leftarrow> whisper_calls (trace st). fst c = vid]"
  using assms
  by (auto simp: transcribe_item_def Let_def save_def set_transcribed_def whisper_calls_append
           split: if_splits prod.splits option.splits dl_state.splits sum.splits)

lemma unique_ids_distinct:
  "distinct (map fst acc) \<Longrightarrow> distinct (map fst (unique_ids entries acc))"
  by (induction entries arbitrary: acc) (auto split: option.splits)

lemma download_item_other:
  "v \<noteq> vid \<Longrightarrow>
     downloaded (progress (download_item col (v, l) st)) vid = downloaded (progress st) vid"
  by (simp add: download_item_def Let_def save_def set_downloaded_def
           split: prod.splits option.splits)

lemma download_item_calls_mono:
  "set (ydl_calls (trace st)) \<subseteq> set (ydl_calls (trace (download_item col item st)))"
  by (cases item)
     (auto simp: download_item_def Let_def save_def set_downloaded_def ydl_calls_append
           split: prod.splits option.splits)

lemma download_loop_calls_mono:
  "set (ydl_calls (trace st)) \<subseteq> set (ydl_calls (trace (download_loop col items st)))"
proof (induction items arbitrary: st)
  case Nil
  then show ?case by simp
next
  case (Cons item items)
  have "set (ydl_calls (trace st)) \<subseteq> set (ydl_calls (trace (download_item col item st)))"
    by (rule download_item_calls_mono)
  also have "\<dots> \<subseteq> set (ydl_calls (trace (download_loop col items (download_item col item st))))"
    by (rule Cons.IH)
  finally show ?case by simp
qed

lemma download_item_attempted:
  "dl_status_ok (downloaded (progress st) vid) \<or>
     (vid, link) \<in> set (ydl_calls (trace (download_item col (vid, link) st)))"
  by (cases "downloaded (progress st) vid" rule: dl_status_ok.cases)
     (auto simp: download_item_def Let_def save_def set_downloaded_def ydl_calls_append
           split: prod.splits option.splits)

lemma download_loop_attempts:
  "distinct (map fst items) \<Longrightarrow> (vid, link) \<in> set items \<Longrightarrow>
     dl_status_ok (downloaded (progress st) vid) \<or>
     (vid, link) \<in> set (ydl_calls (trace (download_loop col items st)))"
proof (induction items arbitrary: st)
  case Nil
  then show ?case by simp
next
  case (Cons item items)
  obtain v l where item: "item = (v, l)" by (cases item)
  show ?case
  proof (cases "(vid, link) = item")
    case True
    then have "dl_status_ok (downloaded (progress st) vid) \<or>
       (vid, link) \<in> set (ydl_calls (trace (download_item col item st)))"
      using download_item_attempted [of st vid link col] by simp
    then show ?thesis
      using download_loop_calls_mono [of "download_item col item st" col items] by auto
  next
    case False
    with Cons.prems have mem: "(vid, link) \<in> set items" by simp
    with Cons.prems(1) item have "v \<noteq> vid" by force
    from Cons.prems(1) have "distinct (map fst items)" by simp
    from Cons.IH [OF this mem, of "download_item col item st"]
    show ?thesis
      using download_item_other [OF \<open>v \<noteq> vid\<close>, of col l st] item by simp
  qed
qed

lemma download_item_counters:
  "skipped (download_item col item st) + failed (download_item col item st)
     + new_count (download_item col item st) = Suc (skipped st + failed st + new_count st)"
  by (cases item)
     (simp add: download_item_def Let_def save_def set_downloaded_def
           split: prod.splits option.splits)

lemma download_loop_counters:
  "skipped (download_loop col items st) + failed (download_loop col items st)
     + new_count (download_loop col items st)
   = length items + (skipped st + failed st + new_count st)"
  by (induction items arbitrary: st) (simp_all add: download_item_counters)

lemma transcribe_item_counters:
  "transcribe_item col dl v st = Inr st' \<Longrightarrow>
   skipped st' + failed st' + new_count st' = Suc (skipped st + failed st + new_count st)"
  by (auto simp: transcribe_item_def Let_def save_def set_transcribed_def
           split: if_splits prod.splits option.splits dl_state.splits sum.splits)

lemma transcribe_loop_counters:
  "transcribe_loop col dl vids st = Inr st' \<Longrightarrow>
   skipped st' + failed st' + new_count st' = length vids + (skipped st + failed st + new_count st)"
proof (induction vids arbitrary: st)
  case Nil
  then show ?case by simp
next
  case (Cons v vids)
  then obtain s1 where s1: "transcribe_item col dl v st = Inr s1"
    and rest: "transcribe_loop col dl vids s1 = Inr st'"
    by (auto split: sum.splits)
  from Cons.IH [OF rest] transcribe_item_counters [OF s1] show ?case by simp
qed

lemma transcribe_item_calls_mono:
  "transcribe_item col dl v st = Inr st' \<Longrightarrow>
     set (whisper_calls (trace st)) \<subseteq> set (whisper_calls (trace st'))"
  by (auto simp: transcribe_item_def Let_def save_def set_transcribed_def whisper_calls_append
           split: if_splits prod.splits option.splits dl_state.splits sum.splits)

lemma transcribe_loop_calls_mono:
  "transcribe_loop col dl vids st = Inr st' \<Longrightarrow>
     set (whisper_calls (trace st)) \<subseteq> set (whisper_calls (trace st'))"
proof (induction vids arbitrary: st)
  case Nil
  then show ?case by simp
next
  case (Cons v vids)
  then obtain s1 where s1: "transcribe_item col dl v st = Inr s1"
    and rest: "transcribe_loop col dl vids s1 = Inr st'"
    by (auto split: sum.splits)
  from Cons.IH [OF rest] transcribe_item_calls_mono [OF s1] show ?case by blast
qed

lemma transcribe_loop_other:
  "transcribe_loop col dl vids st = Inr st' \<Longrightarrow> vid \<notin> set vids \<Longrightarrow>
     transcribed (progress st') vid = transcribed (progress st) vid"
proof (induction vids arbitrary: st)
  case Nil
  then show ?case by simp
next
  case (Cons v vids)
  then obtain s1 where s1: "transcribe_item col dl v st = Inr s1"
    and rest: "transcribe_loop col dl vids s1 = Inr st'"
    by (auto split: sum.splits)
  from Cons.prems(2) have "v \<noteq> vid" "vid \<notin> set vids" by auto
  from Cons.IH [OF rest this(2)] transcribe_item_other(1) [OF s1 this(1)]
  show ?case by simp
qed

lemma transcribe_item_attempted:
  "transcribe_item col dl vid st = Inr st' \<Longrightarrow>
     tr_status_ok (transcribed (progress st) vid) \<or>
     vid \<in> fst ` set (whisper_calls (trace st')) \<or>
     transcribed (progress st') vid = Some (TrError ''Audio-Datei nicht gefunden'')"
  by (auto simp: transcribe_item_def Let_def save_def set_transcribed_def whisper_calls_append
           split: if_splits prod.splits option.splits dl_state.splits sum.splits)

lemma transcribe_loop_attempts:
  "distinct vids \<Longrightarrow> vid \<in> set vids \<Longrightarrow> transcribe_loop col dl vids st = Inr st' \<Longrightarrow>
     tr_status_ok (transcribed (progress st) vid) \<or>
     vid \<in> fst ` set (whisper_calls (trace st')) \<or>
     transcribed (progress st') vid = Some (TrError ''Audio-Datei nicht gefunden'')"
proof (induction vids arbitrary: st)
  case Nil
  then show ?case by simp
next
  case (Cons v vids)
  then obtain s1 where s1: "transcribe_item col dl v st = Inr s1"
    and rest: "transcribe_loop col dl vids s1 = Inr st'"
    by (auto split: sum.splits)
  show ?case
  proof (cases "vid = v")
    case True
    with Cons.prems(1) have "vid \<notin> set vids" by simp
    from transcribe_loop_other [OF rest this] transcribe_loop_calls_mono [OF rest]
      transcribe_item_attempted [OF s1 [folded True]]
    show ?thesis by auto
  next
    case False
    with Cons.prems have "vid \<in> set vids" "distinct vids" by auto
    from Cons.IH [OF this(2) this(1) rest] transcribe_item_other(1) [OF s1, of vid] False
    show ?thesis by auto
  qed
qed

lemma download_item_load:
  assumes "load_progress (files st) PROGRESS_FILE = Inr (progress st)"
  shows "load_progress (files (download_item col item st)) PROGRESS_FILE
           = Inr (progress (download_item col item st))"
  using assms
  by (cases item)
     (simp add: download_item_def Let_def save_def save_progress_def set_downloaded_def
                load_progress_def os_path_exists_def
           split: prod.splits option.splits)

lemma unique_ids_first_seen:
  "map fst (unique_ids es acc)
     = map fst acc @ first_seen (filter (\<lambda>v. v \<notin> set (map fst acc)) (entry_keys es))"
proof (induction es arbitrary: acc)
  case Nil
  then show ?case by simp
next
  case (Cons e es)
  show ?case
  proof (cases "vimeo_id e")
    case None
    then show ?thesis using Cons.IH [of acc] by simp
  next
    case (Some v)
    show ?thesis
    proof (cases "v \<noteq> [] \<and> v \<notin> set (map fst acc)")
      case False
      then show ?thesis using Some Cons.IH [of acc] by auto
    next
      case True
      have eq: "removeAll v (filter (\<lambda>v. v \<notin> set (map fst acc)) (entry_keys es))
             = filter (\<lambda>x. x \<notin> set (map fst (acc @ [(v, url_clean e)]))) (entry_keys es)"
        by (induction "entry_keys es") (auto simp: removeAll_filter_not_eq intro: filter_cong)
      from True Some Cons.IH [of "acc @ [(v, url_clean e)]"] eq
      show ?thesis by simp
    qed
  qed
qed

lemma set_entry_keys:
  "set (entry_keys es) = {v. Some v \<in> set (map vimeo_id es) \<and> v \<noteq> []}"
  by (induction es) (auto split: option.splits)

lemma download_item_calls:
  "ydl_calls (trace (download_item col item st))
     = ydl_calls (trace st) @
         (if dl_skip (files st) (downloaded (progress st) (fst item)) then [] else [item])"
  by (cases item)
     (simp add: download_item_def Let_def save_def set_downloaded_def ydl_calls_append
           split: prod.splits option.splits)

lemma download_loop_calls_subseq:
  "\<exists>new. ydl_calls (trace (download_loop col items st)) = ydl_calls (trace st) @ new \<and>
         subseq new items"
proof (induction items arbitrary: st)
  case Nil
  then show ?case by simp
next
  case (Cons item items)
  from Cons.IH [of "download_item col item st"]
  obtain new where new:
    "ydl_calls (trace (download_loop col items (download_item col item st)))
       = ydl_calls (trace (download_item col item st)) @ new" "subseq new items"
    by blast
  show ?case
  proof (cases "dl_skip (files st) (downloaded (progress st) (fst item))")
    case True
    with new show ?thesis by (auto simp: download_item_calls)
  next
    case False
    with new have "ydl_calls (trace (download_loop col (item # items) st))
        = ydl_calls (trace st) @ (item # new)" "subseq (item # new) (item # items)"
      by (simp_all add: download_item_calls)
    then show ?thesis by blast
  qed
qed

lemma transcribe_item_calls:
  "transcribe_item col dl v st = Inr st' \<Longrightarrow>
     whisper_calls (trace st') = whisper_calls (trace st) \<or>
     (\<exists>p. whisper_calls (trace st') = whisper_calls (trace st) @ [(v, p)])"
  by (auto simp: transcribe_item_def Let_def save_def set_transcribed_def whisper_calls_append
           split: if_splits prod.splits option.splits dl_state.splits sum.splits)

lemma transcribe_loop_calls_subseq:
  "transcribe_loop col dl vids st = Inr st' \<Longrightarrow>
     \<exists>new. whisper_calls (trace st') = whisper_calls (trace st) @ new \<and>
           subseq (map fst new) vids"
proof (induction vids arbitrary: st)
  case Nil
  then show ?case by simp
next
  case (Cons v vids)
  then obtain s1 where s1: "transcribe_item col dl v st = Inr s1"
    and rest: "transcribe_loop col dl vids s1 = Inr st'"
    by (auto split: sum.splits)
  from Cons.IH [OF rest] obtain n2 where n2:
    "whisper_calls (trace st') = whisper_calls (trace s1) @ n2" "subseq (map fst n2) vids"
    by blast
  from transcribe_item_calls [OF s1] show ?case
  proof
    assume same: "whisper_calls (trace s1) = whisper_calls (trace st)"
    have "subseq (map fst n2) (v # vids)" using n2(2) by (rule list_emb_Cons)
    with n2(1) same show ?thesis by auto
  next
    assume "\<exists>p. whisper_calls (trace s1) = whisper_calls (trace st) @ [(v, p)]"
    then obtain p where p: "whisper_calls (trace s1) = whisper_calls (trace st) @ [(v, p)]"
      by blast
    have "subseq (map fst ((v, p) # n2)) (v # vids)" using n2(2) by simp
    moreover have "whisper_calls (trace st') = whisper_calls (trace st) @ ((v, p) # n2)"
      using n2(1) p by simp
    ultimately show ?thesis by blast
  qed
qed

lemma read_rows_nth:
  "i < length sheet \<Longrightarrow> set (row_entries (r + i) (sheet ! i)) \<subseteq> set (read_rows r sheet)"
proof (induction sheet arbitrary: r i)
  case Nil
  then show ?case by simp
next
  case (Cons sr sheet)
  show ?case
  proof (cases i)
    case 0
    then show ?thesis by simp
  next
    case (Suc j)
    with Cons.prems have "j < length sheet" by simp
    from Cons.IH [OF this, of "Suc r"] Suc show ?thesis by auto
  qed
qed

lemma py_in_vimeo_nonempty: "py_in ''vimeo'' (py_lower u) \<Longrightarrow> u \<noteq> []"
  by (cases u) (simp_all add: py_lower_def)

lemma unique_ids_filter:
  "unique_ids (filter (\<lambda>e. vimeo_id e \<noteq> None) es) acc = unique_ids es acc"
  by (induction es arbitrary: acc) (auto split: option.splits)

lemma unique_ids_to_transcribe_filter:
  "unique_ids_to_transcribe (filter (\<lambda>e. vimeo_id e \<noteq> None) es) dl
     = unique_ids_to_transcribe es dl"
  by (induction es) (auto split: option.splits)

lemma export_row_no_id:
  "vimeo_id e = None \<Longrightarrow> r_status (export_row tr dl e) = ''keine_vimeo_id''"
  by (simp add: export_row_def Let_def export_status_def py_truthy_def)

section \<open>The claims\<close>

text \<open>
  C7. Loading the progress never fails when there is no progress file: for every path
  at which no file exists, \<open>load_progress\<close> returns the dictionary with an empty
  \<open>downloaded\<close> and an empty \<open>transcribed\<close> mapping.
\<close>

theorem load_progress_missing_file:
  "\<not> os_path_exists fsys progress_file \<Longrightarrow>
     load_progress fsys progress_file =
       Inr \<lparr> downloaded = Map.empty, transcribed = Map.empty \<rparr>"
  by (simp add: load_progress_def empty_progress_def)

theorem load_progress_missing_file_witness:
  "\<not> os_path_exists Map.empty PROGRESS_FILE \<and>
   load_progress Map.empty PROGRESS_FILE =
     Inr \<lparr> downloaded = Map.empty, transcribed = Map.empty \<rparr>"
  using load_progress_missing_file [of Map.empty PROGRESS_FILE]
  by (simp add: os_path_exists_def)

text \<open>
  C9. Each phase changes only its own mapping of the progress dictionary: the download
  phase leaves \<open>transcribed\<close> as it was, and the transcription phase, which always
  returns, leaves \<open>downloaded\<close> as it was.
\<close>

theorem phase_frame:
  "transcribed (progress (download_audio col entries st)) = transcribed (progress st) \<and>
   (\<exists>st'. transcribe_audio col entries dl st = Inr st' \<and>
          downloaded (progress st') = downloaded (progress st))"
proof
  show "transcribed (progress (download_audio col entries st)) = transcribed (progress st)"
    unfolding download_audio_def
    by (rule download_loop_invariant)
       (simp_all add: start_phase_def download_item_transcribed)
  show "\<exists>st'. transcribe_audio col entries dl st = Inr st' \<and>
          downloaded (progress st') = downloaded (progress st)"
    unfolding transcribe_audio_def
    by (rule transcribe_loop_invariant [OF transcribe_order_ok])
       (simp_all add: start_phase_def transcribe_item_downloaded)
qed

text \<open>
  C3. An exception raised by a collaborator is caught for the one item: the item gets an
  error state whose message is the first 200 characters of the exception text, and the
  loop goes on. In the download phase every unique id that is not already ok is handed to
  the collaborator, whatever the collaborator does for the other ids, and every id is
  counted once as skipped, failed or new. The transcription phase always returns; every
  id of its list that is not already ok is handed to the collaborator or gets the error
  of a missing audio file, and every id is counted once.
\<close>

theorem collaborator_failures_isolated:
  "(\<not> dl_skip (files st) (downloaded (progress st) vid) \<and>
    ydl_download col (os_path_join AUDIO_DIR (vid @ ''.%(ext)s'')) link (ext st, files st)
      = (Some ex, x', files')
    \<longrightarrow> downloaded (progress (download_item col (vid, link) st)) vid
          = Some (DlError (take 200 ex)) \<and>
        length (take 200 ex) \<le> 200) \<and>
   (\<forall>(v, l) \<in> set (unique_ids entries []).
      dl_status_ok (downloaded (progress st) v) \<or>
      (v, l) \<in> set (ydl_calls (trace (download_audio col entries st)))) \<and>
   skipped (download_audio col entries st) + failed (download_audio col entries st)
     + new_count (download_audio col entries st) = length (unique_ids entries []) \<and>
   (\<not> tr_status_ok (transcribed (progress st) vid) \<and> dl vid = Some (DlOk p) \<and>
    os_path_exists (files st) p \<and>
    whisper_transcribe col p (ext st, files st) = (Inl ex, x', files')
    \<longrightarrow> (\<exists>st'. transcribe_item col dl vid st = Inr st' \<and>
              transcribed (progress st') vid = Some (TrError (take 200 ex)))) \<and>
   (\<exists>st'. transcribe_audio col entries dl st = Inr st' \<and>
      (\<forall>v \<in> set (transcribe_order entries dl).
         tr_status_ok (transcribed (progress st) v) \<or>
         v \<in> fst ` set (whisper_calls (trace st')) \<or>
         transcribed (progress st') v = Some (TrError ''Audio-Datei nicht gefunden'')) \<and>
      skipped st' + failed st' + new_count st' = length (transcribe_order entries dl))"
proof (intro conjI)
  show "\<not> dl_skip (files st) (downloaded (progress st) vid) \<and>
    ydl_download col (os_path_join AUDIO_DIR (vid @ ''.%(ext)s'')) link (ext st, files st)
      = (Some ex, x', files')
    \<longrightarrow> downloaded (progress (download_item col (vid, link) st)) vid
          = Some (DlError (take 200 ex)) \<and>
        length (take 200 ex) \<le> 200"
    by (simp add: download_item_def Let_def save_def set_downloaded_def)
next
  show "\<forall>(v, l) \<in> set (unique_ids entries []).
      dl_status_ok (downloaded (progress st) v) \<or>
      (v, l) \<in> set (ydl_calls (trace (download_audio col entries st)))"
  proof (clarify)
    fix v l
    assume mem: "(v, l) \<in> set (unique_ids entries [])"
      and no: "(v, l) \<notin> set (ydl_calls (trace (download_audio col entries st)))"
    have "distinct (map fst (unique_ids entries []))"
      by (rule unique_ids_distinct) simp
    from download_loop_attempts [OF this mem, of "start_phase st" col] no
    show "dl_status_ok (downloaded (progress st) v)"
      by (simp add: download_audio_def start_phase_def)
  qed
next
  show "skipped (download_audio col entries st) + failed (download_audio col entries st)
     + new_count (download_audio col entries st) = length (unique_ids entries [])"
    by (simp add: download_audio_def download_loop_counters start_phase_def)
next
  show "\<not> tr_status_ok (transcribed (progress st) vid) \<and> dl vid = Some (DlOk p) \<and>
    os_path_exists (files st) p \<and>
    whisper_transcribe col p (ext st, files st) = (Inl ex, x', files')
    \<longrightarrow> (\<exists>st'. transcribe_item col dl vid st = Inr st' \<and>
              transcribed (progress st') vid = Some (TrError (take 200 ex)))"
    by (simp add: transcribe_item_def Let_def save_def set_transcribed_def)
next
  let ?vids = "transcribe_order entries dl"
  have ok: "\<forall>v \<in> set ?vids. dl_status_ok (dl v)" by (rule transcribe_order_ok)
  obtain st' where run: "transcribe_loop col dl ?vids (start_phase st) = Inr st'"
    using transcribe_loop_invariant [OF ok, of "\<lambda>s. True" "start_phase st" col] by auto
  have dist: "distinct ?vids"
    by (simp add: transcribe_order_def)
  have "\<forall>v \<in> set ?vids.
         tr_status_ok (transcribed (progress st) v) \<or>
         v \<in> fst ` set (whisper_calls (trace st')) \<or>
         transcribed (progress st') v = Some (TrError ''Audio-Datei nicht gefunden'')"
  proof
    fix v assume "v \<in> set ?vids"
    from transcribe_loop_attempts [OF dist this run]
    show "tr_status_ok (transcribed (progress st) v) \<or>
         v \<in> fst ` set (whisper_calls (trace st')) \<or>
         transcribed (progress st') v = Some (TrError ''Audio-Datei nicht gefunden'')"
      by (simp add: start_phase_def)
  qed
  moreover have "skipped st' + failed st' + new_count st' = length ?vids"
    using transcribe_loop_counters [OF run] by (simp add: start_phase_def)
  ultimately show "\<exists>st'. transcribe_audio col entries dl st = Inr st' \<and>
      (\<forall>v \<in> set (transcribe_order entries dl).
         tr_status_ok (transcribed (progress st) v) \<or>
         v \<in> fst ` set (whisper_calls (trace st')) \<or>
         transcribed (progress st') v = Some (TrError ''Audio-Datei nicht gefunden'')) \<and>
      skipped st' + failed st' + new_count st' = length (transcribe_order entries dl)"
    using run by (simp add: transcribe_audio_def)
qed

theorem collaborator_failures_isolated_witness:
  "(''100'', ''https://vimeo.com/100'') \<in> set (unique_ids demo_entries []) \<and>
   \<not> dl_status_ok (downloaded (progress st0) ''100'') \<and>
   downloaded (progress (fetched (demo_collab ''https://vimeo.com/200'' []))) ''200''
     = Some (DlError ''timeout'') \<and>
   ydl_calls (trace (fetched (demo_collab ''https://vimeo.com/200'' [])))
     = [(''200'', ''https://vimeo.com/200''), (''100'', ''https://vimeo.com/100'')] \<and>
   (''100'', ''https://vimeo.com/100'')
     \<in> set (ydl_calls (trace (download_audio (demo_collab ''https://vimeo.com/200'' [])
                                 demo_entries st0)))"
proof -
  have mem: "(''100'', ''https://vimeo.com/100'') \<in> set (unique_ids demo_entries [])"
    by code_simp
  have nok: "\<not> dl_status_ok (downloaded (progress st0) ''100'')"
    by (simp add: st0_def empty_progress_def)
  have err: "downloaded (progress (fetched (demo_collab ''https://vimeo.com/200'' []))) ''200''
     = Some (DlError ''timeout'')"
    by code_simp
  have calls: "ydl_calls (trace (fetched (demo_collab ''https://vimeo.com/200'' [])))
     = [(''200'', ''https://vimeo.com/200''), (''100'', ''https://vimeo.com/100'')]"
    by code_simp
  have "\<forall>(v, l) \<in> set (unique_ids demo_entries []).
      dl_status_ok (downloaded (progress st0) v) \<or>
      (v, l) \<in> set (ydl_calls (trace (download_audio (demo_collab ''https://vimeo.com/200'' [])
                                       demo_entries st0)))"
    using collaborator_failures_isolated
      [where st = st0 and col = "demo_collab ''https://vimeo.com/200'' []"
         and entries = demo_entries]
    by blast
  with mem nok have "(''100'', ''https://vimeo.com/100'')
     \<in> set (ydl_calls (trace (download_audio (demo_collab ''https://vimeo.com/200'' [])
                                 demo_entries st0)))"
    by blast
  with mem nok err calls show ?thesis by blast
qed

text \<open>
  C4. The export gives every entry exactly one status, the one of the first matching
  rule of the decision list: no id gives \<open>keine_vimeo_id\<close>; else a transcription state
  ok gives \<open>ok\<close> with the text and the audio duration; else a download state error
  gives \<open>download_fehlgeschlagen\<close> with the download error; else a transcription state
  error gives \<open>transkription_fehlgeschlagen\<close> with its error; otherwise
  \<open>nicht_verarbeitet\<close>. In particular an entry with a download error and no
  transcription state is reported as \<open>download_fehlgeschlagen\<close>.
\<close>

theorem export_results_decision_list:
  "map (\<lambda>r. (r_status r, r_transkript r, r_audio_dauer_s r)) (export_results entries tr dl)
     = map (\<lambda>e. render_status (spec_row_status (item_key (vimeo_id e))
                    (dict_get dl (vimeo_id e)) (dict_get tr (vimeo_id e)))) entries \<and>
   (py_truthy (vimeo_id e) \<and> dict_get dl (vimeo_id e) = Some (DlError m) \<and>
    dict_get tr (vimeo_id e) = None
    \<longrightarrow> r_status (export_row tr dl e) = ''download_fehlgeschlagen'' \<and>
        r_transkript (export_row tr dl e) = ''[Fehler: '' @ m @ '']'')"
  by (cases "vimeo_id e")
     (auto simp: export_results_def export_row_def Let_def export_status_spec item_key_def
                 py_truthy_def)

theorem export_results_decision_list_witness:
  "py_truthy (vimeo_id (hd demo_entries)) \<and>
   dict_get failed_200 (vimeo_id (hd demo_entries)) = Some (DlError ''timeout'') \<and>
   dict_get Map.empty (vimeo_id (hd demo_entries)) = (None :: tr_state option) \<and>
   r_status (export_row Map.empty failed_200 (hd demo_entries)) = ''download_fehlgeschlagen'' \<and>
   r_transkript (export_row Map.empty failed_200 (hd demo_entries)) = ''[Fehler: timeout]''"
proof -
  have a: "py_truthy (vimeo_id (hd demo_entries))" by code_simp
  have b: "dict_get failed_200 (vimeo_id (hd demo_entries)) = Some (DlError ''timeout'')"
    by code_simp
  have c: "dict_get Map.empty (vimeo_id (hd demo_entries)) = (None :: tr_state option)"
    by code_simp
  from export_results_decision_list [of "[]" Map.empty failed_200 "hd demo_entries" "''timeout''"]
    a b c
  have "r_status (export_row Map.empty failed_200 (hd demo_entries)) = ''download_fehlgeschlagen'' \<and>
   r_transkript (export_row Map.empty failed_200 (hd demo_entries)) = ''[Fehler: timeout]''"
    by simp
  with a b c show ?thesis by blast
qed

text \<open>
  C6. For every download attempt on an item (the item is not skipped): the item is
  recorded ok exactly when the call returns without raising and the file
  \<open>output/audio/<id>.mp3\<close> exists afterwards, and then with that path; if the call
  returns and the file does not exist, the item is recorded as an error. The call returns
  no value that the program reads.
\<close>

theorem fetch_success_signal:
  assumes "\<not> dl_skip (files st) (downloaded (progress st) vid)"
    and "ydl_download col (os_path_join AUDIO_DIR (vid @ ''.%(ext)s'')) link (ext st, files st)
           = (raised, x', files')"
  shows "(dl_status_ok (downloaded (progress (download_item col (vid, link) st)) vid) \<longleftrightarrow>
            raised = None \<and> os_path_exists files' (os_path_join AUDIO_DIR (vid @ ''.mp3''))) \<and>
         (raised = None \<and> os_path_exists files' (os_path_join AUDIO_DIR (vid @ ''.mp3'')) \<longrightarrow>
            downloaded (progress (download_item col (vid, link) st)) vid
              = Some (DlOk (os_path_join AUDIO_DIR (vid @ ''.mp3'')))) \<and>
         (raised = None \<and> \<not> os_path_exists files' (os_path_join AUDIO_DIR (vid @ ''.mp3'')) \<longrightarrow>
            downloaded (progress (download_item col (vid, link) st)) vid
              = Some (DlError ''Datei nicht gefunden nach Download''))"
  by (simp add: download_item_attempt [OF assms] Let_def save_def set_downloaded_def
           split: option.splits)

theorem fetch_success_signal_witness:
  "\<not> dl_skip (files st0) (downloaded (progress st0) ''100'') \<and>
   downloaded (progress (download_item (demo_collab [] [])
                 (''100'', ''https://vimeo.com/100'') st0)) ''100''
     = Some (DlOk ''output/audio/100.mp3'') \<and>
   downloaded (progress (download_item idle_collab
                 (''100'', ''https://vimeo.com/100'') st0)) ''100''
     = Some (DlError ''Datei nicht gefunden nach Download'')"
proof -
  have skip: "\<not> dl_skip (files st0) (downloaded (progress st0) ''100'')"
    by (simp add: st0_def empty_progress_def)
  have path: "os_path_join AUDIO_DIR (''100'' @ ''.mp3'') = ''output/audio/100.mp3''"
    by (simp add: AUDIO_DIR_def OUTPUT_DIR_def os_path_join_def)
  have call1: "ydl_download (demo_collab [] []) (os_path_join AUDIO_DIR (''100'' @ ''.%(ext)s''))
      ''https://vimeo.com/100'' (ext st0, files st0)
        = (None, (), (files st0)(''output/audio/100.mp3'' \<mapsto> Blob))"
    by (simp add: demo_collab_def AUDIO_DIR_def OUTPUT_DIR_def os_path_join_def)
  have call2: "ydl_download idle_collab (os_path_join AUDIO_DIR (''100'' @ ''.%(ext)s''))
      ''https://vimeo.com/100'' (ext st0, files st0) = (None, (), files st0)"
    by (simp add: idle_collab_def)
  have there: "os_path_exists ((files st0)(''output/audio/100.mp3'' \<mapsto> Blob))
      ''output/audio/100.mp3''"
    by (simp add: os_path_exists_def)
  have absent: "\<not> os_path_exists (files st0) ''output/audio/100.mp3''"
    by (simp add: os_path_exists_def st0_def)
  from fetch_success_signal [OF skip call1] there path
  have a: "downloaded (progress (download_item (demo_collab [] [])
                 (''100'', ''https://vimeo.com/100'') st0)) ''100''
     = Some (DlOk ''output/audio/100.mp3'')"
    by simp
  from fetch_success_signal [OF skip call2] absent path
  have b: "downloaded (progress (download_item idle_collab
                 (''100'', ''https://vimeo.com/100'') st0)) ''100''
     = Some (DlError ''Datei nicht gefunden nach Download'')"
    by simp
  from skip a b show ?thesis by blast
qed

text \<open>
  C10. The transcription phase only considers items whose download state is ok: for an
  id that is not in \<open>downloaded\<close> or whose status there is not ok, the phase returns,
  has made no transcription call for it, and leaves its transcription state as it was.
\<close>

theorem transform_only_fetched:
  assumes "\<not> dl_status_ok (dl vid)"
  shows "\<exists>st'. transcribe_audio col entries dl st = Inr st' \<and>
           transcribed (progress st') vid = transcribed (progress st) vid \<and>
           [c \<leftarrow> whisper_calls (trace st'). fst c = vid]
             = [c \<leftarrow> whisper_calls (trace st). fst c = vid]"
  unfolding transcribe_audio_def
proof (rule transcribe_loop_invariant [OF transcribe_order_ok])
  show "transcribed (progress (start_phase st)) vid = transcribed (progress st) vid \<and>
        [c \<leftarrow> whisper_calls (trace (start_phase st)). fst c = vid]
          = [c \<leftarrow> whisper_calls (trace st). fst c = vid]"
    by (simp add: start_phase_def)
next
  fix v s s'
  assume v: "v \<in> set (transcribe_order entries dl)"
    and inv: "transcribed (progress s) vid = transcribed (progress st) vid \<and>
        [c \<leftarrow> whisper_calls (trace s). fst c = vid] = [c \<leftarrow> whisper_calls (trace st). fst c = vid]"
    and step: "transcribe_item col dl v s = Inr s'"
  from v transcribe_order_ok have "dl_status_ok (dl v)" by blast
  with assms have "v \<noteq> vid" by auto
  with step inv show "transcribed (progress s') vid = transcribed (progress st) vid \<and>
        [c \<leftarrow> whisper_calls (trace s'). fst c = vid] = [c \<leftarrow> whisper_calls (trace st). fst c = vid]"
    using transcribe_item_other by metis
qed

theorem transform_only_fetched_witness:
  "\<not> dl_status_ok (failed_200 ''200'') \<and>
   (\<exists>st'. transcribe_audio (demo_collab [] []) demo_entries failed_200 st0 = Inr st' \<and>
      transcribed (progress st') ''200'' = None \<and>
      [c \<leftarrow> whisper_calls (trace st'). fst c = ''200''] = [])"
proof -
  have h: "\<not> dl_status_ok (failed_200 ''200'')"
    by (simp add: failed_200_def)
  from transform_only_fetched
    [where dl = failed_200 and vid = "''200''" and col = "demo_collab [] []"
       and entries = demo_entries and st = st0, OF h]
  have "\<exists>st'. transcribe_audio (demo_collab [] []) demo_entries failed_200 st0 = Inr st' \<and>
      transcribed (progress st') ''200'' = None \<and>
      [c \<leftarrow> whisper_calls (trace st'). fst c = ''200''] = []"
    by (simp add: st0_def empty_progress_def)
  with h show ?thesis by blast
qed

text \<open>
  C1, as the program has it. For every item on which a phase calls its collaborator, the
  whole progress dictionary is written to the progress file right after the new state of
  the item is recorded, whether the call succeeded or failed, and the write is the last
  thing done for the item. For a skipped item nothing is written, and the dictionary and
  the files stay as they are. So in the download phase the progress file holds the
  dictionary in memory after every item if it did before the first.
\<close>

theorem checkpoint_written_after_attempt:
  "(if dl_skip (files st) (downloaded (progress st) vid)
    then progress (download_item col (vid, link) st) = progress st \<and>
         files (download_item col (vid, link) st) = files st \<and>
         trace (download_item col (vid, link) st) = trace st
    else files (download_item col (vid, link) st) PROGRESS_FILE
           = Some (JsonDoc (progress (download_item col (vid, link) st))) \<and>
         trace (download_item col (vid, link) st)
           = trace st @ [YdlCall vid link,
                         SaveCall PROGRESS_FILE (progress (download_item col (vid, link) st))]) \<and>
   (load_progress (files st) PROGRESS_FILE = Inr (progress st) \<longrightarrow>
      load_progress (files (download_loop col items st)) PROGRESS_FILE
        = Inr (progress (download_loop col items st))) \<and>
   (dl vid = Some (DlOk p) \<longrightarrow>
      (\<exists>st'. transcribe_item col dl vid st = Inr st' \<and>
         (tr_status_ok (transcribed (progress st) vid) \<longrightarrow>
            progress st' = progress st \<and> files st' = files st \<and> trace st' = trace st) \<and>
         (\<not> tr_status_ok (transcribed (progress st) vid) \<and> os_path_exists (files st) p \<longrightarrow>
            files st' PROGRESS_FILE = Some (JsonDoc (progress st')) \<and>
            trace st' = trace st @ [WhisperCall vid p, SaveCall PROGRESS_FILE (progress st')])))"
proof (intro conjI)
  show "if dl_skip (files st) (downloaded (progress st) vid)
    then progress (download_item col (vid, link) st) = progress st \<and>
         files (download_item col (vid, link) st) = files st \<and>
         trace (download_item col (vid, link) st) = trace st
    else files (download_item col (vid, link) st) PROGRESS_FILE
           = Some (JsonDoc (progress (download_item col (vid, link) st))) \<and>
         trace (download_item col (vid, link) st)
           = trace st @ [YdlCall vid link,
                         SaveCall PROGRESS_FILE (progress (download_item col (vid, link) st))]"
    by (simp add: download_item_def Let_def save_def save_progress_def set_downloaded_def
             split: prod.splits option.splits)
next
  show "load_progress (files st) PROGRESS_FILE = Inr (progress st) \<longrightarrow>
      load_progress (files (download_loop col items st)) PROGRESS_FILE
        = Inr (progress (download_loop col items st))"
  proof
    assume "load_progress (files st) PROGRESS_FILE = Inr (progress st)"
    then show "load_progress (files (download_loop col items st)) PROGRESS_FILE
        = Inr (progress (download_loop col items st))"
      by (rule download_loop_invariant) (rule download_item_load)
  qed
next
  show "dl vid = Some (DlOk p) \<longrightarrow>
      (\<exists>st'. transcribe_item col dl vid st = Inr st' \<and>
         (tr_status_ok (transcribed (progress st) vid) \<longrightarrow>
            progress st' = progress st \<and> files st' = files st \<and> trace st' = trace st) \<and>
         (\<not> tr_status_ok (transcribed (progress st) vid) \<and> os_path_exists (files st) p \<longrightarrow>
            files st' PROGRESS_FILE = Some (JsonDoc (progress st')) \<and>
            trace st' = trace st @ [WhisperCall vid p, SaveCall PROGRESS_FILE (progress st')]))"
    by (auto simp: transcribe_item_def Let_def save_def save_progress_def set_transcribed_def
             split: prod.splits sum.splits)
qed

theorem checkpoint_written_after_attempt_witness:
  "\<not> dl_skip (files st0) (downloaded (progress st0) ''200'') \<and>
   files (download_item (demo_collab ''https://vimeo.com/200'' [])
            (''200'', ''https://vimeo.com/200'') st0) PROGRESS_FILE
     = Some (JsonDoc (progress (download_item (demo_collab ''https://vimeo.com/200'' [])
                                  (''200'', ''https://vimeo.com/200'') st0))) \<and>
   downloaded (progress (download_item (demo_collab ''https://vimeo.com/200'' [])
                           (''200'', ''https://vimeo.com/200'') st0)) ''200''
     = Some (DlError ''timeout'')"
proof -
  have a: "\<not> dl_skip (files st0) (downloaded (progress st0) ''200'')"
    by (simp add: st0_def empty_progress_def)
  from checkpoint_written_after_attempt
    [where st = st0 and vid = "''200''" and link = "''https://vimeo.com/200''"
       and col = "demo_collab ''https://vimeo.com/200'' []"] a
  have b: "files (download_item (demo_collab ''https://vimeo.com/200'' [])
            (''200'', ''https://vimeo.com/200'') st0) PROGRESS_FILE
     = Some (JsonDoc (progress (download_item (demo_collab ''https://vimeo.com/200'' [])
                                  (''200'', ''https://vimeo.com/200'') st0)))"
    by simp
  have c: "downloaded (progress (download_item (demo_collab ''https://vimeo.com/200'' [])
                           (''200'', ''https://vimeo.com/200'') st0)) ''200''
     = Some (DlError ''timeout'')"
    by code_simp
  from a b c show ?thesis by blast
qed

text \<open>
  C1 as stated fails: in a transcription phase over the ids 100 (already transcribed, so
  skipped) and 200 (its audio file is gone, so it gets an error state) nothing is written;
  afterwards the dictionary in memory holds the error of 200 and the progress file does not.
\<close>

theorem checkpoint_not_written_counterexample:
  "transcribe_order demo_entries (downloaded (progress lost_audio)) = [''100'', ''200''] \<and>
   map_sum id (\<lambda>s. (skipped s, failed s, new_count s, length (save_calls (trace s)),
                     transcribed (progress s) ''200'', disk_transcribed (files s) ''200''))
     (transcribe_audio (demo_collab [] []) demo_entries
        (downloaded (progress lost_audio)) lost_audio)
   = Inr (1, 1, 0, 0, Some (TrError ''Audio-Datei nicht gefunden''), None)"
  by code_simp

text \<open>
  C2, as the program has it. In the download phase an item is skipped exactly when its
  stored download state is ok and the path recorded there exists; then the state is
  unchanged and the collaborator is not called, and otherwise, also when the state is ok
  and the file is gone, the collaborator is called once. In the transcription phase an item
  is skipped exactly when its stored transcription state is ok, and no file is looked at
  for that; an item that is not skipped is handed to the collaborator only if the audio
  file recorded by the download phase exists, and otherwise it gets the error state
  \<open>Audio-Datei nicht gefunden\<close> and is counted as failed, without a call.
\<close>

theorem skip_decision:
  "(skipped (download_item col (vid, link) st) = Suc (skipped st) \<longleftrightarrow>
      (\<exists>p. downloaded (progress st) vid = Some (DlOk p) \<and> os_path_exists (files st) p)) \<and>
   ((\<exists>p. downloaded (progress st) vid = Some (DlOk p) \<and> os_path_exists (files st) p) \<longrightarrow>
      download_item col (vid, link) st = st\<lparr> skipped := skipped st + 1 \<rparr>) \<and>
   (\<not> (\<exists>p. downloaded (progress st) vid = Some (DlOk p) \<and> os_path_exists (files st) p) \<longrightarrow>
      ydl_calls (trace (download_item col (vid, link) st)) = ydl_calls (trace st) @ [(vid, link)]) \<and>
   (dl vid = Some (DlOk p) \<longrightarrow>
      (\<exists>st'. transcribe_item col dl vid st = Inr st' \<and>
         (skipped st' = Suc (skipped st) \<longleftrightarrow> tr_status_ok (transcribed (progress st) vid)) \<and>
         (tr_status_ok (transcribed (progress st) vid) \<longrightarrow>
            st' = st\<lparr> skipped := skipped st + 1 \<rparr>) \<and>
         whisper_calls (trace st') = whisper_calls (trace st) @
           (if tr_status_ok (transcribed (progress st) vid) \<or> \<not> os_path_exists (files st) p
            then [] else [(vid, p)]) \<and>
         (\<not> tr_status_ok (transcribed (progress st) vid) \<and> \<not> os_path_exists (files st) p \<longrightarrow>
            transcribed (progress st') vid = Some (TrError ''Audio-Datei nicht gefunden'') \<and>
            failed st' = Suc (failed st) \<and> skipped st' = skipped st \<and>
            new_count st' = new_count st)))"
proof (intro conjI)
  have skip: "dl_skip (files st) (downloaded (progress st) vid) \<longleftrightarrow>
      (\<exists>p. downloaded (progress st) vid = Some (DlOk p) \<and> os_path_exists (files st) p)"
    by (cases "downloaded (progress st) vid" rule: dl_status_ok.cases) auto
  show "skipped (download_item col (vid, link) st) = Suc (skipped st) \<longleftrightarrow>
      (\<exists>p. downloaded (progress st) vid = Some (DlOk p) \<and> os_path_exists (files st) p)"
    unfolding skip [symmetric]
    by (simp add: download_item_def Let_def save_def set_downloaded_def
             split: prod.splits option.splits)
  show "(\<exists>p. downloaded (progress st) vid = Some (DlOk p) \<and> os_path_exists (files st) p) \<longrightarrow>
      download_item col (vid, link) st = st\<lparr> skipped := skipped st + 1 \<rparr>"
    unfolding skip [symmetric] by (simp add: download_item_skip)
  show "\<not> (\<exists>p. downloaded (progress st) vid = Some (DlOk p) \<and> os_path_exists (files st) p) \<longrightarrow>
      ydl_calls (trace (download_item col (vid, link) st)) = ydl_calls (trace st) @ [(vid, link)]"
    unfolding skip [symmetric]
    by (simp add: download_item_def Let_def save_def set_downloaded_def ydl_calls_append
             split: prod.splits option.splits)
  show "dl vid = Some (DlOk p) \<longrightarrow>
      (\<exists>st'. transcribe_item col dl vid st = Inr st' \<and>
         (skipped st' = Suc (skipped st) \<longleftrightarrow> tr_status_ok (transcribed (progress st) vid)) \<and>
         (tr_status_ok (transcribed (progress st) vid) \<longrightarrow>
            st' = st\<lparr> skipped := skipped st + 1 \<rparr>) \<and>
         whisper_calls (trace st') = whisper_calls (trace st) @
           (if tr_status_ok (transcribed (progress st) vid) \<or> \<not> os_path_exists (files st) p
            then [] else [(vid, p)]) \<and>
         (\<not> tr_status_ok (transcribed (progress st) vid) \<and> \<not> os_path_exists (files st) p \<longrightarrow>
            transcribed (progress st') vid = Some (TrError ''Audio-Datei nicht gefunden'') \<and>
            failed st' = Suc (failed st) \<and> skipped st' = skipped st \<and>
            new_count st' = new_count st))"
    by (auto simp: transcribe_item_def Let_def save_def set_transcribed_def whisper_calls_append
             split: prod.splits sum.splits)
qed

theorem skip_decision_witness:
  "\<not> (\<exists>p. downloaded (progress (resumed Map.empty)) ''100'' = Some (DlOk p) \<and>
          os_path_exists (files (resumed Map.empty)) p) \<and>
   downloaded (progress (resumed Map.empty)) ''100'' = Some (DlOk ''output/audio/100.mp3'') \<and>
   ydl_calls (trace (download_item (demo_collab [] []) (''100'', ''https://vimeo.com/100'')
                       (resumed Map.empty)))
     = [(''100'', ''https://vimeo.com/100'')] \<and>
   failed_200 ''100'' = Some (DlOk ''output/audio/100.mp3'') \<and>
   \<not> tr_status_ok (transcribed (progress st0) ''100'') \<and>
   \<not> os_path_exists (files st0) ''output/audio/100.mp3'' \<and>
   (\<exists>st'. transcribe_item (demo_collab [] []) failed_200 ''100'' st0 = Inr st' \<and>
      whisper_calls (trace st') = [] \<and>
      transcribed (progress st') ''100'' = Some (TrError ''Audio-Datei nicht gefunden'') \<and>
      failed st' = 1)"
proof -
  have st: "downloaded (progress (resumed Map.empty)) ''100'' = Some (DlOk ''output/audio/100.mp3'')"
    by (simp add: resumed_def Let_def st0_def)
  have gone: "\<not> os_path_exists (files (resumed Map.empty)) ''output/audio/100.mp3''"
    by (simp add: resumed_def Let_def st0_def os_path_exists_def PROGRESS_FILE_def
                  OUTPUT_DIR_def os_path_join_def)
  from st gone
  have a: "\<not> (\<exists>p. downloaded (progress (resumed Map.empty)) ''100'' = Some (DlOk p) \<and>
          os_path_exists (files (resumed Map.empty)) p)"
    by simp
  have tr: "ydl_calls (trace (resumed Map.empty)) = []"
    by (simp add: resumed_def Let_def st0_def)
  from skip_decision
    [where st = "resumed Map.empty" and vid = "''100''" and link = "''https://vimeo.com/100''"
       and col = "demo_collab [] []"] a tr
  have b: "ydl_calls (trace (download_item (demo_collab [] []) (''100'', ''https://vimeo.com/100'')
                       (resumed Map.empty)))
     = [(''100'', ''https://vimeo.com/100'')]"
    by simp
  have dl: "failed_200 ''100'' = Some (DlOk ''output/audio/100.mp3'')"
    by (simp add: failed_200_def)
  have nok: "\<not> tr_status_ok (transcribed (progress st0) ''100'')"
    by (simp add: st0_def empty_progress_def)
  have miss: "\<not> os_path_exists (files st0) ''output/audio/100.mp3''"
    by (simp add: st0_def os_path_exists_def)
  have t0: "whisper_calls (trace st0) = []" "failed st0 = 0"
    by (simp_all add: st0_def)
  from skip_decision
    [where st = st0 and vid = "''100''" and dl = failed_200 and link = "[]"
       and p = "''output/audio/100.mp3''" and col = "demo_collab [] []"] dl nok miss t0
  have c: "\<exists>st'. transcribe_item (demo_collab [] []) failed_200 ''100'' st0 = Inr st' \<and>
      whisper_calls (trace st') = [] \<and>
      transcribed (progress st') ''100'' = Some (TrError ''Audio-Datei nicht gefunden'') \<and>
      failed st' = 1"
    by auto
  from a st b dl nok miss c show ?thesis by blast
qed

text \<open>
  C2 as stated fails in the transcription phase: id 100 has a stored transcription state
  ok and the audio file recorded for it does not exist; the item is skipped all the same
  and the collaborator is not called again.
\<close>

theorem skip_without_artifact_counterexample:
  "tr_status_ok (transcribed (progress (resumed Map.empty)) ''100'') \<and>
   downloaded (progress (resumed Map.empty)) ''100'' = Some (DlOk ''output/audio/100.mp3'') \<and>
   \<not> os_path_exists (files (resumed Map.empty)) ''output/audio/100.mp3'' \<and>
   map_sum id (\<lambda>s. (skipped s, whisper_calls (trace s), transcribed (progress s) ''100''))
     (transcribe_item (demo_collab [] []) (downloaded (progress (resumed Map.empty))) ''100''
        (resumed Map.empty))
   = Inr (1, [], Some (TrOk ''hallo'' 3 1))"
  by code_simp

text \<open>
  C5, as the program has it. The download phase goes through the unique ids in the order
  of their first appearance in the entries, and its collaborator calls follow that order;
  the transcription phase goes through the ids with download state ok in ascending order
  of the id strings, and its collaborator calls follow that order.
\<close>

theorem phase_orders:
  "map fst (unique_ids entries []) = first_seen (entry_keys entries) \<and>
   (\<exists>new. ydl_calls (trace (download_audio col entries st)) = ydl_calls (trace st) @ new \<and>
          subseq new (unique_ids entries [])) \<and>
   sorted (transcribe_order entries dl) \<and> distinct (transcribe_order entries dl) \<and>
   set (transcribe_order entries dl) = {v \<in> set (entry_keys entries). dl_status_ok (dl v)} \<and>
   (\<exists>st' new. transcribe_audio col entries dl st = Inr st' \<and>
      whisper_calls (trace st') = whisper_calls (trace st) @ new \<and>
      subseq (map fst new) (transcribe_order entries dl))"
proof (intro conjI)
  show "map fst (unique_ids entries []) = first_seen (entry_keys entries)"
    using unique_ids_first_seen [of entries "[]"] by simp
  show "\<exists>new. ydl_calls (trace (download_audio col entries st)) = ydl_calls (trace st) @ new \<and>
          subseq new (unique_ids entries [])"
    using download_loop_calls_subseq [of col "unique_ids entries []" "start_phase st"]
    by (simp add: download_audio_def start_phase_def)
  show "sorted (transcribe_order entries dl)" by (simp add: transcribe_order_def)
  show "distinct (transcribe_order entries dl)" by (simp add: transcribe_order_def)
  show "set (transcribe_order entries dl) = {v \<in> set (entry_keys entries). dl_status_ok (dl v)}"
    by (auto simp: set_transcribe_order unique_ids_to_transcribe_iff set_entry_keys)
  obtain st' where run:
    "transcribe_loop col dl (transcribe_order entries dl) (start_phase st) = Inr st'"
    using transcribe_loop_invariant
      [OF transcribe_order_ok, where P = "\<lambda>s. True" and st = "start_phase st" and col = col]
    by auto
  from transcribe_loop_calls_subseq [OF run] obtain new where new:
    "whisper_calls (trace st') = whisper_calls (trace (start_phase st)) @ new"
    "subseq (map fst new) (transcribe_order entries dl)"
    by blast
  have "transcribe_audio col entries dl st = Inr st' \<and>
      whisper_calls (trace st') = whisper_calls (trace st) @ new \<and>
      subseq (map fst new) (transcribe_order entries dl)"
    using run new by (simp add: transcribe_audio_def start_phase_def)
  then show "\<exists>st' new. transcribe_audio col entries dl st = Inr st' \<and>
      whisper_calls (trace st') = whisper_calls (trace st) @ new \<and>
      subseq (map fst new) (transcribe_order entries dl)"
    by blast
qed

text \<open>
  C5 as stated fails: for the entries of the demonstration sheet, the download phase
  calls its collaborator for 200 and then 100, the transcription phase for 100 and then
  200.
\<close>

theorem phase_orders_differ_counterexample:
  "map fst (ydl_calls (trace (fetched (demo_collab [] [])))) = [''200'', ''100''] \<and>
   map (downloaded (progress (fetched (demo_collab [] [])))) [''200'', ''100'']
     = map (downloaded (progress both_fetched)) [''200'', ''100''] \<and>
   map_sum id (\<lambda>s. map fst (whisper_calls (trace s)))
     (transcribe_audio (demo_collab [] []) demo_entries
        (downloaded (progress both_fetched)) both_fetched)
   = Inr [''100'', ''200'']"
  by code_simp

text \<open>
  C8. A link cell that contains \<open>vimeo\<close> (in any case) and from which no numeric id can
  be extracted still gives an entry, with the row number, the link kind and no id; the
  entry has a row in the report, with the status \<open>keine_vimeo_id\<close>; and both phases run
  exactly as they would without the entries that have no id.
\<close>

theorem unidentified_rows:
  assumes "i < length sheet"
    and "(typ = ''kurz'' \<and> c_video_kurz (sheet ! i) = Some u) \<or>
         (typ = ''lang'' \<and> c_video_lang (sheet ! i) = Some u)"
    and "py_in ''vimeo'' (py_lower u)"
    and "extract_vimeo_id (clean_vimeo_url u) = None"
  shows "(\<exists>e \<in> set (read_excel sheet).
            row e = i + 2 \<and> link_typ e = typ \<and> url e = py_strip u \<and> vimeo_id e = None \<and>
            export_row tr dl e \<in> set (export_results (read_excel sheet) tr dl) \<and>
            r_status (export_row tr dl e) = ''keine_vimeo_id'') \<and>
         download_audio col (read_excel sheet) st
           = download_audio col (filter (\<lambda>e. vimeo_id e \<noteq> None) (read_excel sheet)) st \<and>
         transcribe_audio col (read_excel sheet) dl st
           = transcribe_audio col (filter (\<lambda>e. vimeo_id e \<noteq> None) (read_excel sheet)) dl st"
proof (intro conjI)
  let ?e = "link_entry (2 + i) (sheet ! i) typ u"
  from assms(3) have ne: "u \<noteq> []" by (rule py_in_vimeo_nonempty)
  with assms(2,3) have "?e \<in> set (row_entries (2 + i) (sheet ! i))"
    by (auto simp: row_entries_def slot_entries_def is_vimeo_cell_def)
  with read_rows_nth [OF assms(1), of 2] have mem: "?e \<in> set (read_excel sheet)"
    by (auto simp: read_excel_def)
  have none: "vimeo_id ?e = None" using assms(4) by (simp add: link_entry_def)
  have "row ?e = i + 2 \<and> link_typ ?e = typ \<and> url ?e = py_strip u \<and> vimeo_id ?e = None \<and>
        export_row tr dl ?e \<in> set (export_results (read_excel sheet) tr dl) \<and>
        r_status (export_row tr dl ?e) = ''keine_vimeo_id''"
    using mem none export_row_no_id [OF none]
    by (simp add: link_entry_def export_results_def)
  with mem show "\<exists>e \<in> set (read_excel sheet).
            row e = i + 2 \<and> link_typ e = typ \<and> url e = py_strip u \<and> vimeo_id e = None \<and>
            export_row tr dl e \<in> set (export_results (read_excel sheet) tr dl) \<and>
            r_status (export_row tr dl e) = ''keine_vimeo_id''"
    by blast
next
  show "download_audio col (read_excel sheet) st
           = download_audio col (filter (\<lambda>e. vimeo_id e \<noteq> None) (read_excel sheet)) st"
    by (simp only: download_audio_def unique_ids_filter)
next
  show "transcribe_audio col (read_excel sheet) dl st
           = transcribe_audio col (filter (\<lambda>e. vimeo_id e \<noteq> None) (read_excel sheet)) dl st"
    by (simp only: transcribe_audio_def transcribe_order_def unique_ids_to_transcribe_filter)
qed

theorem unidentified_rows_witness:
  "(2::nat) < length demo_sheet \<and>
   c_video_lang (demo_sheet ! 2) = Some ''https://vimeo.com/manage/videos'' \<and>
   py_in ''vimeo'' (py_lower ''https://vimeo.com/manage/videos'') \<and>
   extract_vimeo_id (clean_vimeo_url ''https://vimeo.com/manage/videos'') = None \<and>
   (\<exists>e \<in> set (read_excel demo_sheet).
      row e = 4 \<and> link_typ e = ''lang'' \<and> vimeo_id e = None \<and>
      r_status (export_row Map.empty Map.empty e) = ''keine_vimeo_id'') \<and>
   map vimeo_id (read_excel demo_sheet) = [Some ''200'', Some ''100'', Some ''100'', None, None] \<and>
   map fst (unique_ids (read_excel demo_sheet) []) = [''200'', ''100''] \<and>
   map r_status (export_results (read_excel demo_sheet) Map.empty Map.empty)
     = [''nicht_verarbeitet'', ''nicht_verarbeitet'', ''nicht_verarbeitet'',
        ''keine_vimeo_id'', ''keine_vimeo_id'']"
proof -
  have a: "(2::nat) < length demo_sheet" by code_simp
  have b': "c_video_lang (demo_sheet ! 2) = Some ''https://vimeo.com/manage/videos''"
    by code_simp
  then have b: "(''lang'' = ''kurz'' \<and>
            c_video_kurz (demo_sheet ! 2) = Some ''https://vimeo.com/manage/videos'') \<or>
           (''lang'' = ''lang'' \<and>
            c_video_lang (demo_sheet ! 2) = Some ''https://vimeo.com/manage/videos'')"
    by simp
  have c: "py_in ''vimeo'' (py_lower ''https://vimeo.com/manage/videos'')" by code_simp
  have d: "extract_vimeo_id (clean_vimeo_url ''https://vimeo.com/manage/videos'') = None"
    by code_simp
  have e: "map vimeo_id (read_excel demo_sheet)
             = [Some ''200'', Some ''100'', Some ''100'', None, None]"
    by code_simp
  have f: "map fst (unique_ids (read_excel demo_sheet) []) = [''200'', ''100'']"
    by code_simp
  have g: "map r_status (export_results (read_excel demo_sheet) Map.empty Map.empty)
     = [''nicht_verarbeitet'', ''nicht_verarbeitet'', ''nicht_verarbeitet'',
        ''keine_vimeo_id'', ''keine_vimeo_id'']"
    by code_simp
  from unidentified_rows [OF a b c d, of Map.empty Map.empty "demo_collab [] []" st0]
  have "\<exists>e \<in> set (read_excel demo_sheet).
      row e = 4 \<and> link_typ e = ''lang'' \<and> vimeo_id e = None \<and>
      r_status (export_row Map.empty Map.empty e) = ''keine_vimeo_id''"
    by auto
  with a b' c d e f g show ?thesis by blast
qed

end
